theory Spec2Isabelle
  imports Main "HOL-Library.Sublist"
begin

section \<open>The relay server of \<open>server.py\<close>\<close>

text \<open>
  The program is one aiohttp application: a websocket handler that relays every text
  message of a connection to the other registered connections, a handler that serves one
  file from a fixed path, and a static route for the working directory.

  The model follows one run of \<open>websocket_handler\<close> from its first line to its
  \<open>return\<close>, with the steps of the source in the source's order. The handler is a
  coroutine: wherever it awaits, the handlers of other connections run, and they share
  the registry with it. What the run gets from outside is an input of the model and is
  left arbitrary:
  \<^item> whether \<open>ws.prepare\<close> raises;
  \<^item> the frames that arrive on the connection, and how the iteration ends when no
    frame is left;
  \<^item> for every connection, whether it is \<open>closed\<close>, what \<open>send_str\<close> to it
    raises (if anything), and what \<open>ws.exception()\<close> prints as;
  \<^item> what the other tasks do at each await of the run: while it waits for a message,
    and during each \<open>send_str\<close>.
\<close>

subsection \<open>Data\<close>

text \<open>A connection is a \<open>WebSocketResponse\<close> object; the source compares connections by
  identity (\<open>client is not ws\<close>), so a connection is its identity.\<close>

type_synonym conn = nat

text \<open>\<open>aiohttp.WSMsgType\<close>, and a message with its \<open>type\<close> and \<open>data\<close>.\<close>

datatype WSMsgType =
  CONTINUATION | TEXT | BINARY | PING | PONG | CLOSE | CLOSING | CLOSED | ERROR

datatype WSMessage = WSMessage (msg_type: WSMsgType) (msg_data: string)

text \<open>The exceptions a library call of the handler can raise.\<close>

datatype exn =
  ConnectionResetError | RuntimeError | CancelledError | TimeoutError | HTTPBadRequest

text \<open>What a run does, in order: the calls on the registry, the calls of \<open>send_str\<close>
  (each call, also one that raises) and the lines printed.\<close>

datatype event =
  Add conn | Discard conn | SendStr conn string | Print string

text \<open>
  The state: the module's global \<open>active_websockets\<close>, the library's side of every
  connection, and the history of events. \<open>active_websockets\<close> is a Python set; the
  list holds its members once each, in the order an iteration visits them. Python leaves
  that order open, and every theorem below holds for every order.
\<close>

record server =
  active_websockets :: "conn list"
  closed :: "conn set"
  send_error :: "conn \<rightharpoonup> exn"
  ws_exception :: "conn \<Rightarrow> string"
  history :: "event list"

subsection \<open>The registry and the library calls\<close>

definition add :: "conn \<Rightarrow> server \<Rightarrow> server" where
  "add ws s =
     s\<lparr>active_websockets :=
         (if ws \<in> set (active_websockets s) then active_websockets s
          else active_websockets s @ [ws]),
       history := history s @ [Add ws]\<rparr>"

text \<open>\<open>set.discard\<close>: no \<open>KeyError\<close> for an absent element, so no error branch.\<close>

definition discard :: "conn \<Rightarrow> server \<Rightarrow> server" where
  "discard ws s =
     s\<lparr>active_websockets := removeAll ws (active_websockets s),
       history := history s @ [Discard ws]\<rparr>"

definition print :: "string \<Rightarrow> server \<Rightarrow> server" where
  "print line s = s\<lparr>history := history s @ [Print line]\<rparr>"

text \<open>\<open>await client.send_str(data)\<close>: the call is recorded; its result is the exception
  it raises, or \<open>None\<close>.\<close>

definition send_str :: "conn \<Rightarrow> string \<Rightarrow> server \<Rightarrow> exn option \<times> server" where
  "send_str client d s =
     (send_error s client, s\<lparr>history := history s @ [SendStr client d]\<rparr>)"


subsection \<open>Registration and cleanup\<close>

text \<open>Lines 14 and 15, and the \<open>finally\<close> block of lines 29 to 31. Neither holds an
  await, so each runs as one step.\<close>

definition register :: "conn \<Rightarrow> server \<Rightarrow> server" where
  "register ws s = print ''Device connected'' (add ws s)"

definition cleanup :: "conn \<Rightarrow> server \<Rightarrow> server" where
  "cleanup ws s = print ''Device disconnected'' (discard ws s)"

subsection \<open>The other tasks\<close>

text \<open>
  What another task can do to the state while the handler awaits: the handler of another
  connection registers it (lines 14 and 15) or cleans up after it (lines 29 to 31), a
  connection gets closed, or a transport breaks so that \<open>send_str\<close> to it raises from
  then on.
\<close>

datatype action = Join conn | Leave conn | Closes conn | Breaks conn exn

fun act :: "action \<Rightarrow> server \<Rightarrow> server" where
  "act (Join c) s = register c s"
| "act (Leave c) s = cleanup c s"
| "act (Closes c) s = s\<lparr>closed := insert c (closed s)\<rparr>"
| "act (Breaks c e) s = s\<lparr>send_error := (send_error s)(c \<mapsto> e)\<rparr>"

definition others :: "action list \<Rightarrow> server \<Rightarrow> server" where
  "others acts s = fold act acts s"

text \<open>
  One step of the \<open>async for\<close>: what the other tasks do while the handler waits for the
  message, the message that the iteration yields, and what the other tasks do during the
  first, the second, ... \<open>send_str\<close> of its broadcast (nothing where the list ends).
\<close>

datatype arrival =
  Arrival (meanwhile: "action list") (message: WSMessage) (during: "action list list")

subsection \<open>The handler\<close>

text \<open>
  Lines 22 to 24, \<open>for client in active_websockets\<close> with an await in its body. The
  loop iterates the set itself, not a copy. \<open>n\<close> is the size of the set when the
  iteration started and the list holds the members still to visit. Python's set
  iterator compares the size of the set with \<open>n\<close> at every step, also the last one,
  and raises \<open>RuntimeError\<close> (Set changed size during iteration) when they differ. When
  members were exchanged with the size unchanged the iterator goes on over its hash
  table; a member that has left is not visited, and whether one that has joined is
  visited depends on the table: the model does not visit it. An exception of
  \<open>send_str\<close> is not caught, so it ends the loop.
\<close>

fun relay_env ::
  "conn \<Rightarrow> string \<Rightarrow> nat \<Rightarrow> conn list \<Rightarrow> action list list \<Rightarrow> server \<Rightarrow> exn option \<times> server" where
  "relay_env ws d n [] dur s =
     (if length (active_websockets s) \<noteq> n then Some RuntimeError else None, s)"
| "relay_env ws d n (client # rest) dur s =
     (if length (active_websockets s) \<noteq> n then (Some RuntimeError, s)
      else if client \<in> set (active_websockets s) \<and> client \<noteq> ws \<and> client \<notin> closed s then
        (case send_str client d s of
           (Some e, s') \<Rightarrow> (Some e, s')
         | (None, s') \<Rightarrow> relay_env ws d n rest (tl dur) (others (concat (take 1 dur)) s'))
      else relay_env ws d n rest dur s)"

text \<open>Lines 20 to 26, the body of the \<open>async for\<close>.\<close>

definition on_message_env ::
  "conn \<Rightarrow> WSMessage \<Rightarrow> action list list \<Rightarrow> server \<Rightarrow> exn option \<times> server" where
  "on_message_env ws msg dur s =
     (if msg_type msg = TEXT then
        relay_env ws (msg_data msg) (length (active_websockets s)) (active_websockets s) dur s
      else if msg_type msg = ERROR then
        (None, print (''ws connection closed with exception '' @ ws_exception s ws) s)
      else (None, s))"

text \<open>
  Line 19, \<open>async for msg in ws\<close>, over the messages that the iteration yields. \<open>fin\<close>
  is how the iteration ends when no message is left (\<open>None\<close>: it stops; \<open>Some e\<close>: it
  raises \<open>e\<close>). The iteration is aiohttp's: on a closed connection it stops; a \<open>CLOSE\<close>,
  \<open>CLOSING\<close> or \<open>CLOSED\<close> message is not yielded, it stops the iteration; and the
  library closes the connection before it yields an \<open>ERROR\<close> message. An exception of
  the body leaves the loop.
\<close>

definition close :: "conn \<Rightarrow> server \<Rightarrow> server" where
  "close ws s = s\<lparr>closed := insert ws (closed s)\<rparr>"

fun listen_env :: "conn \<Rightarrow> arrival list \<Rightarrow> exn option \<Rightarrow> server \<Rightarrow> exn option \<times> server" where
  "listen_env ws [] fin s = (if ws \<in> closed s then None else fin, s)"
| "listen_env ws (a # rest) fin s =
     (if ws \<in> closed s then (None, s)
      else if ws \<in> closed (others (meanwhile a) s) then (None, others (meanwhile a) s)
      else if msg_type (message a) \<in> {CLOSE, CLOSING, CLOSED} then
        (None, close ws (others (meanwhile a) s))
      else
        (case on_message_env ws (message a) (during a)
                (if msg_type (message a) = ERROR then close ws (others (meanwhile a) s)
                 else others (meanwhile a) s) of
           (Some e, s') \<Rightarrow> (Some e, s')
         | (None, s') \<Rightarrow> listen_env ws rest fin s'))"

text \<open>
  Line 10, \<open>web.WebSocketResponse()\<close>, leaves the library's \<open>max_msg_size\<close> at its
  default of 4 MiB. The reader refuses a text or binary frame whose size reaches it: the
  iteration yields an \<open>ERROR\<close> message in its place.
\<close>

definition max_msg_size :: nat where
  "max_msg_size = 4 * 1024 * 1024"

definition yielded :: "WSMessage \<Rightarrow> WSMessage" where
  "yielded frame =
     (if msg_type frame \<in> {TEXT, BINARY} \<and> max_msg_size \<le> length (msg_data frame)
      then WSMessage ERROR [] else frame)"

definition arrives :: "arrival \<Rightarrow> arrival" where
  "arrives a = Arrival (meanwhile a) (yielded (message a)) (during a)"

text \<open>
  \<open>websocket_handler\<close>: \<open>ws\<close> is the object of line 10, \<open>prepare\<close> what
  \<open>await ws.prepare(request)\<close> raises, and the arrivals hold the frames that arrive on
  the connection. The result is the exception the handler raises (\<open>None\<close>: it returns
  \<open>ws\<close>) and the state it leaves.
\<close>

definition websocket_handler_env ::
  "conn \<Rightarrow> exn option \<Rightarrow> arrival list \<Rightarrow> exn option \<Rightarrow> server \<Rightarrow> exn option \<times> server" where
  "websocket_handler_env ws prepare arrivals fin s =
     (case prepare of
        Some e \<Rightarrow> (Some e, s)
      | None \<Rightarrow>
          (case listen_env ws (map arrives arrivals) fin (register ws s) of
             (r, s') \<Rightarrow> (r, cleanup ws s')))"

subsection \<open>A run with no other task acting\<close>

text \<open>The body of the loop, the loop and the handler when the other tasks do nothing
  during the run.\<close>

definition quiet :: "WSMessage \<Rightarrow> arrival" where
  "quiet msg = Arrival [] msg []"

definition on_message :: "conn \<Rightarrow> WSMessage \<Rightarrow> server \<Rightarrow> exn option \<times> server" where
  "on_message ws msg s = on_message_env ws msg [] s"

definition listen :: "conn \<Rightarrow> WSMessage list \<Rightarrow> exn option \<Rightarrow> server \<Rightarrow> exn option \<times> server" where
  "listen ws msgs fin s = listen_env ws (map quiet msgs) fin s"

definition websocket_handler ::
  "conn \<Rightarrow> exn option \<Rightarrow> WSMessage list \<Rightarrow> exn option \<Rightarrow> server \<Rightarrow> exn option \<times> server" where
  "websocket_handler ws prepare frames fin s =
     websocket_handler_env ws prepare (map quiet frames) fin s"

subsection \<open>The routes\<close>

text \<open>
  Lines 4, 35 to 36 and 39 to 49. The three routes are \<open>GET\<close> routes, so a request is
  the path of a \<open>GET\<close>. \<open>app\<close> is the router's table in the order of registration, and
  \<open>resolve\<close> takes the first resource that matches, which is how aiohttp's dispatcher
  treats its table. A file system maps a path to the file's contents.
\<close>

definition EXTERNAL_DASHBOARD_PATH :: string where
  "EXTERNAL_DASHBOARD_PATH = ''../data/dashboard.html''"

datatype handler = Websocket_handler | External_dashboard_handler

datatype resource = Get string handler | Static string string

datatype response = Upgrade | Body string | NotFound

definition app :: "string \<Rightarrow> resource list" where
  "app cwd =
     [Get ''/ws'' Websocket_handler,
      Get ''/dashboard.html'' External_dashboard_handler,
      Static ''/'' cwd]"

definition FileResponse :: "(string \<rightharpoonup> string) \<Rightarrow> string \<Rightarrow> response" where
  "FileResponse fs path = (case fs path of Some contents \<Rightarrow> Body contents | None \<Rightarrow> NotFound)"

definition external_dashboard_handler :: "(string \<rightharpoonup> string) \<Rightarrow> response" where
  "external_dashboard_handler fs = FileResponse fs EXTERNAL_DASHBOARD_PATH"

fun matches :: "resource \<Rightarrow> string \<Rightarrow> bool" where
  "matches (Get pattern h) path = (path = pattern)"
| "matches (Static pfx dir) path = (take (length pfx) path = pfx)"

fun respond :: "(string \<rightharpoonup> string) \<Rightarrow> resource \<Rightarrow> string \<Rightarrow> response" where
  "respond fs (Get pattern Websocket_handler) path = Upgrade"
| "respond fs (Get pattern External_dashboard_handler) path = external_dashboard_handler fs"
| "respond fs (Static pfx dir) path = FileResponse fs (dir @ ''/'' @ drop (length pfx) path)"

fun resolve :: "resource list \<Rightarrow> (string \<rightharpoonup> string) \<Rightarrow> string \<Rightarrow> response" where
  "resolve [] fs path = NotFound"
| "resolve (r # rs) fs path = (if matches r path then respond fs r path else resolve rs fs path)"


subsection \<open>What the claims speak of\<close>

text \<open>The calls of \<open>send_str\<close> in a history, as pairs of recipient and payload.\<close>

fun sends :: "event list \<Rightarrow> (conn \<times> string) list" where
  "sends [] = []"
| "sends (SendStr c d # es) = (c, d) # sends es"
| "sends (e # es) = sends es"

text \<open>The calls of \<open>send_str\<close> made between a state and a later one.\<close>

definition new_sends :: "server \<Rightarrow> server \<Rightarrow> (conn \<times> string) list" where
  "new_sends s s' = drop (length (sends (history s))) (sends (history s'))"

text \<open>The connections that \<open>send_str\<close> is called on for one text message \<open>d\<close> that
  \<open>ws\<close> receives in state \<open>s\<close>, in the order of the calls, when no other task acts
  during the broadcast.\<close>

definition targets :: "conn \<Rightarrow> string \<Rightarrow> server \<Rightarrow> conn list" where
  "targets ws d s = map fst (new_sends s (snd (on_message ws (WSMessage TEXT d) s)))"



text \<open>The recipients of a broadcast by \<open>ws\<close> over the members \<open>cs\<close>: every member but
  \<open>ws\<close> that is not closed, in the order of the iteration.\<close>

definition recipients :: "conn \<Rightarrow> conn list \<Rightarrow> server \<Rightarrow> conn list" where
  "recipients ws cs s = filter (\<lambda>c. c \<noteq> ws \<and> c \<notin> closed s) cs"

text \<open>The recipients a broadcast reaches: all of them up to the first one whose
  \<open>send_str\<close> raises, that one included.\<close>

fun upto_failure :: "(conn \<rightharpoonup> exn) \<Rightarrow> conn list \<Rightarrow> conn list" where
  "upto_failure err [] = []"
| "upto_failure err (c # cs) = (if err c = None then c # upto_failure err cs else [c])"

fun first_failure :: "(conn \<rightharpoonup> exn) \<Rightarrow> conn list \<Rightarrow> exn option" where
  "first_failure err [] = None"
| "first_failure err (c # cs) = (if err c = None then first_failure err cs else err c)"

text \<open>The payloads of the text messages of a stream, in order.\<close>

definition texts :: "WSMessage list \<Rightarrow> string list" where
  "texts msgs = map msg_data (filter (\<lambda>m. msg_type m = TEXT) msgs)"

text \<open>The calls of \<open>send_str\<close> of one broadcast of the payload \<open>d\<close> that reaches the
  connections \<open>cs\<close>, and those of a run that broadcasts the payloads \<open>ds\<close> one after
  the other, the broadcast of each payload reaching the connections at its place in
  \<open>css\<close>.\<close>

definition fan_out :: "string \<Rightarrow> conn list \<Rightarrow> (conn \<times> string) list" where
  "fan_out d cs = map (\<lambda>c. (c, d)) cs"

fun fan_outs :: "string list \<Rightarrow> conn list list \<Rightarrow> (conn \<times> string) list" where
  "fan_outs (d # ds) (cs # css) = fan_out d cs @ fan_outs ds css"
| "fan_outs ds css = []"

text \<open>A state for the examples: connections 0, 1 and 2 are registered and open, and
  \<open>send_str\<close> to connection 1 raises.\<close>

definition three_peers :: server where
  "three_peers =
     \<lparr>active_websockets = [0, 1, 2], closed = {}, send_error = [1 \<mapsto> ConnectionResetError],
      ws_exception = (\<lambda>c. ''None''), history = []\<rparr>"

text \<open>The same with every write succeeding.\<close>

definition three_open :: server where
  "three_open =
     \<lparr>active_websockets = [0, 1, 2], closed = {}, send_error = Map.empty,
      ws_exception = (\<lambda>c. ''None''), history = []\<rparr>"

text \<open>Five peers: connection 1 is closed and \<open>send_str\<close> to connection 3 raises.\<close>

definition five_peers :: server where
  "five_peers =
     \<lparr>active_websockets = [0, 1, 2, 3, 4], closed = {1},
      send_error = [3 \<mapsto> ConnectionResetError],
      ws_exception = (\<lambda>c. ''None''), history = []\<rparr>"

text \<open>A file system with a dashboard at the external path and another one in the working
  directory \<open>/srv/sim\<close>.\<close>

definition two_dashboards :: "string \<rightharpoonup> string" where
  "two_dashboards =
     [''../data/dashboard.html'' \<mapsto> ''<h1>external</h1>'',
      ''/srv/sim/dashboard.html'' \<mapsto> ''<h1>local</h1>'']"

text \<open>A text of one byte more than 4 MiB.\<close>

definition big_text :: string where
  "big_text = replicate 4194305 (CHR ''a'')"

section \<open>Properties\<close>

subsection \<open>A run with no other task acting, in closed form\<close>

lemma others_Nil: "others [] s = s"
  by (simp add: others_def)

lemma others_Cons: "others (a # acts) s = others acts (act a s)"
  by (simp add: others_def)

lemma sends_append: "sends (xs @ ys) = sends xs @ sends ys"
  by (induction xs rule: sends.induct) simp_all

lemma sends_map_SendStr: "sends (map (\<lambda>c. SendStr c d) cs) = map (\<lambda>c. (c, d)) cs"
  by (induction cs) simp_all

lemma new_sends_extend: "new_sends s (s\<lparr>history := history s @ evs\<rparr>) = sends evs"
  by (simp add: new_sends_def sends_append)

lemma upto_failure_prefix: "prefix (upto_failure err cs) cs"
  by (induction cs) simp_all

lemma upto_failure_all: "first_failure err cs = None \<Longrightarrow> upto_failure err cs = cs"
  by (induction cs) (simp_all split: if_splits)


lemma relay_env_quiet:
  "length (active_websockets s) = n \<Longrightarrow> set cs \<subseteq> set (active_websockets s) \<Longrightarrow>
   relay_env ws d n cs [] s =
     (first_failure (send_error s) (recipients ws cs s),
      s\<lparr>history := history s @
          map (\<lambda>c. SendStr c d) (upto_failure (send_error s) (recipients ws cs s))\<rparr>)"
proof (induction cs arbitrary: s)
  case Nil
  then show ?case by (simp add: recipients_def)
next
  case (Cons c cs)
  let ?s' = "s\<lparr>history := history s @ [SendStr c d]\<rparr>"
  have ih: "relay_env ws d n cs [] ?s' =
     (first_failure (send_error ?s') (recipients ws cs ?s'),
      ?s'\<lparr>history := history ?s' @
          map (\<lambda>c. SendStr c d) (upto_failure (send_error ?s') (recipients ws cs ?s'))\<rparr>)"
    using Cons.prems by (intro Cons.IH) simp_all
  have ih0: "relay_env ws d n cs [] s =
     (first_failure (send_error s) (recipients ws cs s),
      s\<lparr>history := history s @
          map (\<lambda>c. SendStr c d) (upto_failure (send_error s) (recipients ws cs s))\<rparr>)"
    using Cons.prems by (intro Cons.IH) simp_all
  have r: "recipients ws cs ?s' = recipients ws cs s"
    by (simp add: recipients_def)
  show ?case
  proof (cases "c \<noteq> ws \<and> c \<notin> closed s")
    case True
    then show ?thesis
      using Cons.prems ih r
      by (cases "send_error s c") (simp_all add: send_str_def recipients_def others_Nil)
  next
    case False
    then show ?thesis
      using Cons.prems ih0 by (auto simp: recipients_def)
  qed
qed

lemma on_message_TEXT_eq:
  "on_message ws (WSMessage TEXT d) s =
     (first_failure (send_error s) (recipients ws (active_websockets s) s),
      s\<lparr>history := history s @ map (\<lambda>c. SendStr c d)
          (upto_failure (send_error s) (recipients ws (active_websockets s) s))\<rparr>)"
  by (simp add: on_message_def on_message_env_def relay_env_quiet)

lemma on_message_BINARY: "on_message ws (WSMessage BINARY d) s = (None, s)"
  by (simp add: on_message_def on_message_env_def)


lemma listen_Nil: "listen ws [] fin s = (if ws \<in> closed s then None else fin, s)"
  by (simp add: listen_def)

lemma listen_Cons:
  "listen ws (m # msgs) fin s =
     (if ws \<in> closed s then (None, s)
      else if msg_type m \<in> {CLOSE, CLOSING, CLOSED} then (None, close ws s)
      else
        (case on_message ws m (if msg_type m = ERROR then close ws s else s) of
           (Some e, s') \<Rightarrow> (Some e, s')
         | (None, s') \<Rightarrow> listen ws msgs fin s'))"
  unfolding listen_def on_message_def by (simp add: quiet_def others_Nil)




lemma register_simps:
  "active_websockets (register ws s) =
     (if ws \<in> set (active_websockets s) then active_websockets s else active_websockets s @ [ws])"
  "closed (register ws s) = closed s"
  "send_error (register ws s) = send_error s"
  "history (register ws s) = history s @ [Add ws, Print ''Device connected'']"
  by (simp_all add: register_def add_def print_def)

lemma cleanup_simps:
  "active_websockets (cleanup ws s) = removeAll ws (active_websockets s)"
  "closed (cleanup ws s) = closed s"
  "send_error (cleanup ws s) = send_error s"
  "history (cleanup ws s) = history s @ [Discard ws, Print ''Device disconnected'']"
  by (simp_all add: cleanup_def discard_def print_def)

lemma arrives_quiet: "arrives (quiet m) = quiet (yielded m)"
  by (simp add: arrives_def quiet_def)

lemma websocket_handler_None:
  "websocket_handler ws None frames fin s =
     (fst (listen ws (map yielded frames) fin (register ws s)),
      cleanup ws (snd (listen ws (map yielded frames) fin (register ws s))))"
  by (simp add: websocket_handler_def websocket_handler_env_def listen_def comp_def
      arrives_quiet split: prod.splits)


subsection \<open>Frames that are neither text nor error\<close>

lemma listen_closed: "ws \<in> closed s \<Longrightarrow> listen ws msgs fin s = (None, s)"
  by (cases msgs) (simp_all add: listen_Nil listen_Cons)

lemma listen_BINARY: "listen ws (WSMessage BINARY d # msgs) fin s = listen ws msgs fin s"
  by (cases "ws \<in> closed s") (simp_all add: listen_closed listen_Cons on_message_BINARY)

text \<open>
  C10. A binary frame is ignored: the body of the loop returns without an exception and
  leaves the state as it is, so nothing is written to a peer, the registry is unchanged,
  and the loop goes on with the messages that follow exactly as if the frame had not
  been there.
\<close>

theorem binary_frame_ignored:
  "on_message ws (WSMessage BINARY d) s = (None, s)
   \<and> listen ws (WSMessage BINARY d # msgs) fin s = listen ws msgs fin s
   \<and> listen ws (pre @ WSMessage BINARY d # msgs) fin s = listen ws (pre @ msgs) fin s"
proof -
  have "listen ws (pre @ WSMessage BINARY d # msgs) fin s = listen ws (pre @ msgs) fin s"
  proof (induction pre arbitrary: s)
    case Nil
    show ?case by (simp add: listen_BINARY)
  next
    case (Cons m pre)
    show ?case by (simp add: listen_Cons Cons.IH split: prod.splits option.splits)
  qed
  then show ?thesis by (simp add: on_message_BINARY listen_BINARY)
qed

subsection \<open>Cleanup\<close>

text \<open>
  C5. \<open>cleanup\<close> is the \<open>finally\<close> block; it has no error result, since
  \<open>set.discard\<close> raises nothing for an absent element. Running it a second time for the
  same connection leaves the registry, and so its size, as the first run left it; the
  connection is absent after the first run; removing a connection that is not registered
  changes nothing; and a further cleanup after a whole run of the handler changes nothing.
\<close>

theorem cleanup_idempotent:
  "active_websockets (cleanup ws (cleanup ws s)) = active_websockets (cleanup ws s)
   \<and> length (active_websockets (cleanup ws (cleanup ws s))) =
       length (active_websockets (cleanup ws s))
   \<and> ws \<notin> set (active_websockets (cleanup ws s))
   \<and> (ws \<notin> set (active_websockets s) \<longrightarrow>
        active_websockets (cleanup ws s) = active_websockets s)
   \<and> active_websockets (cleanup ws (snd (websocket_handler ws None msgs fin s))) =
       active_websockets (snd (websocket_handler ws None msgs fin s))"
  by (simp add: cleanup_simps websocket_handler_None)

text \<open>Connection 7 is not registered and its removal changes nothing; connection 1 is
  removed once, and the second removal changes nothing.\<close>

theorem cleanup_idempotent_witness:
  "7 \<notin> set (active_websockets three_open)
   \<and> active_websockets (cleanup 7 three_open) = [0, 1, 2]
   \<and> active_websockets (cleanup 1 three_open) = [0, 2]
   \<and> active_websockets (cleanup 1 (cleanup 1 three_open)) = [0, 2]"
proof -
  have a: "7 \<notin> set (active_websockets three_open)"
    by (simp add: three_open_def)
  have b: "active_websockets three_open = [0, 1, 2]"
    by (simp add: three_open_def)
  have c: "active_websockets (cleanup 1 three_open) = [0, 2]"
    by (simp add: cleanup_def discard_def print_def three_open_def)
  from cleanup_idempotent [of 7 three_open] a b
  have d: "active_websockets (cleanup 7 three_open) = [0, 1, 2]" by simp
  from cleanup_idempotent [of 1 three_open] c
  have e: "active_websockets (cleanup 1 (cleanup 1 three_open)) = [0, 2]" by simp
  from a d c e show ?thesis by (intro conjI)
qed

subsection \<open>The dashboard route\<close>

text \<open>
  C7. A request for \<open>/dashboard.html\<close> is answered by \<open>external_dashboard_handler\<close>,
  that is with the file at the fixed external path, whatever the working directory
  holds: its route is registered before the static route. The static route alone would
  answer with the file of that name in the working directory.
\<close>

theorem dashboard_alias:
  "resolve (app cwd) fs ''/dashboard.html'' = external_dashboard_handler fs
   \<and> external_dashboard_handler fs = FileResponse fs ''../data/dashboard.html''
   \<and> resolve [Static ''/'' cwd] fs ''/dashboard.html'' = FileResponse fs (cwd @ ''/dashboard.html'')"
  by (simp add: app_def external_dashboard_handler_def EXTERNAL_DASHBOARD_PATH_def)

text \<open>With a dashboard at both places, the external one is served.\<close>

theorem dashboard_alias_witness:
  "resolve (app ''/srv/sim'') two_dashboards ''/dashboard.html'' = Body ''<h1>external</h1>''
   \<and> resolve [Static ''/'' ''/srv/sim''] two_dashboards ''/dashboard.html'' = Body ''<h1>local</h1>''"
proof -
  have a: "FileResponse two_dashboards ''../data/dashboard.html'' = Body ''<h1>external</h1>''"
    by (simp add: FileResponse_def two_dashboards_def)
  have b: "FileResponse two_dashboards (''/srv/sim'' @ ''/dashboard.html'') = Body ''<h1>local</h1>''"
    by (simp add: FileResponse_def two_dashboards_def)
  from dashboard_alias [of "''/srv/sim''" two_dashboards] a b show ?thesis by simp
qed

subsection \<open>The registry over the life of a connection\<close>



subsection \<open>What the other tasks cannot change\<close>

lemma act_sends: "sends (history (act a s)) = sends (history s)"
  by (cases a) (simp_all add: register_simps cleanup_simps sends_append)

lemma others_sends: "sends (history (others acts s)) = sends (history s)"
  by (induction acts arbitrary: s) (simp_all add: others_Nil others_Cons act_sends)

lemma act_distinct: "distinct (active_websockets s) \<Longrightarrow> distinct (active_websockets (act a s))"
  by (cases a) (simp_all add: register_simps cleanup_simps distinct_removeAll)

lemma others_distinct:
  "distinct (active_websockets s) \<Longrightarrow> distinct (active_websockets (others acts s))"
  by (induction acts arbitrary: s) (simp_all add: others_Nil others_Cons act_distinct)

text \<open>A broadcast, whatever the other tasks do during it: every call of \<open>send_str\<close>
  carries the payload, and the targets are members of the set as it was when the
  iteration started, in that order, each at most once.\<close>

lemma relay_env_shape:
  "\<exists>cs'. subseq cs' cs
      \<and> sends (history (snd (relay_env ws d n cs dur s))) =
          sends (history s) @ map (\<lambda>c. (c, d)) cs'
      \<and> (distinct (active_websockets s) \<longrightarrow>
           distinct (active_websockets (snd (relay_env ws d n cs dur s))))"
proof (induction cs arbitrary: dur s)
  case Nil
  show ?case by (intro exI [of _ "[]"]) simp
next
  case (Cons c cs)
  show ?case
  proof (cases "length (active_websockets s) \<noteq> n")
    case True
    then show ?thesis by (intro exI [of _ "[]"]) simp
  next
    case size: False
    show ?thesis
    proof (cases "c \<in> set (active_websockets s) \<and> c \<noteq> ws \<and> c \<notin> closed s")
      case False
      from Cons.IH [of dur s] obtain cs' where
        "subseq cs' cs
         \<and> sends (history (snd (relay_env ws d n cs dur s))) =
             sends (history s) @ map (\<lambda>c. (c, d)) cs'
         \<and> (distinct (active_websockets s) \<longrightarrow>
              distinct (active_websockets (snd (relay_env ws d n cs dur s))))" ..
      then show ?thesis
        using False size by (intro exI [of _ cs']) auto
    next
      case True
      let ?s' = "s\<lparr>history := history s @ [SendStr c d]\<rparr>"
      show ?thesis
      proof (cases "send_error s c")
        case (Some e)
        then show ?thesis
          using True size
          by (intro exI [of _ "[c]"]) (simp add: send_str_def sends_append)
      next
        case None
        let ?s'' = "others (concat (take 1 dur)) ?s'"
        from Cons.IH [of "tl dur" ?s''] obtain cs' where ih:
          "subseq cs' cs
           \<and> sends (history (snd (relay_env ws d n cs (tl dur) ?s''))) =
               sends (history ?s'') @ map (\<lambda>c. (c, d)) cs'
           \<and> (distinct (active_websockets ?s'') \<longrightarrow>
                distinct (active_websockets (snd (relay_env ws d n cs (tl dur) ?s''))))" ..
        have step: "relay_env ws d n (c # cs) dur s = relay_env ws d n cs (tl dur) ?s''"
          using True size None by (simp add: send_str_def)
        have hs: "sends (history ?s'') = sends (history s) @ [(c, d)]"
          by (simp add: others_sends sends_append)
        have ds: "distinct (active_websockets s) \<longrightarrow> distinct (active_websockets ?s'')"
          by (simp add: others_distinct)
        show ?thesis
          unfolding step
          by (rule exI [of _ "c # cs'"]) (use ih hs ds in simp)
      qed
    qed
  qed
qed

subsection \<open>The targets of a broadcast\<close>

lemma targets_eq:
  "targets ws d s = upto_failure (send_error s) (recipients ws (active_websockets s) s)"
  by (simp add: targets_def on_message_TEXT_eq new_sends_extend sends_map_SendStr comp_def)

text \<open>
  C1. The code at an input where the claim fails. Peers 1 and 2 are both registered, open
  and not the sender, and \<open>send_str\<close> to peer 1 raises. Line 24 does not catch the
  exception, so the loop over the registry ends there: peer 2, one of the other connected
  clients that the comment of line 21 promises the message to, is never written to.
\<close>

theorem failed_write_cuts_broadcast:
  "recipients 0 (active_websockets three_peers) three_peers = [1, 2]
   \<and> fst (on_message 0 (WSMessage TEXT ''hello'') three_peers) = Some ConnectionResetError
   \<and> targets 0 ''hello'' three_peers = [1]"
  by (simp add: targets_eq on_message_TEXT_eq recipients_def three_peers_def)

subsection \<open>A write that raises\<close>

text \<open>
  C2. The code at an input where the claim fails. Connection 3 joins peers 0, 1 and 2, all
  open, and sends two messages; \<open>send_str\<close> to peer 1 raises. Peer 2 is not attempted,
  the exception leaves the loop of connection 3 and its handler raises it, the second
  message is never relayed, and the \<open>finally\<close> block deregisters connection 3.
\<close>

theorem failed_write_ends_sender:
  "recipients 3 (active_websockets (register 3 three_peers)) (register 3 three_peers) = [0, 1, 2]
   \<and> fst (websocket_handler 3 None [WSMessage TEXT ''hello'', WSMessage TEXT ''again''] None
        three_peers) = Some ConnectionResetError
   \<and> new_sends three_peers (snd (websocket_handler 3 None
        [WSMessage TEXT ''hello'', WSMessage TEXT ''again''] None three_peers)) =
       [(0, ''hello''), (1, ''hello'')]
   \<and> active_websockets (snd (websocket_handler 3 None
        [WSMessage TEXT ''hello'', WSMessage TEXT ''again''] None three_peers)) = [0, 1, 2]"
  by (simp add: websocket_handler_None yielded_def max_msg_size_def listen_Cons
      on_message_TEXT_eq register_simps cleanup_simps recipients_def new_sends_def
      sends_append three_peers_def)

subsection \<open>The registry changed during a broadcast\<close>

text \<open>
  C6. The code at inputs where the claim fails. Connection 3 joins peers 0, 1 and 2, all
  open and with no failing write, and broadcasts a message. While it awaits the write to
  peer 0, the handler of connection 4 registers it (first run), or the handler of peer 2
  cleans up (second run). At its next step the iteration over the set raises
  \<open>RuntimeError\<close>: peers 1 and 2 (peer 1 in the second run) are skipped, the handler of
  connection 3 raises, and in the first run its second message is never relayed.
\<close>

theorem join_during_write_breaks_broadcast:
  "recipients 3 (active_websockets (register 3 three_open)) (register 3 three_open) = [0, 1, 2]
   \<and> send_error (register 3 three_open) = Map.empty
   \<and> fst (websocket_handler_env 3 None
        [Arrival [] (WSMessage TEXT ''hello'') [[Join 4]],
         Arrival [] (WSMessage TEXT ''again'') []] None three_open) = Some RuntimeError
   \<and> new_sends three_open (snd (websocket_handler_env 3 None
        [Arrival [] (WSMessage TEXT ''hello'') [[Join 4]],
         Arrival [] (WSMessage TEXT ''again'') []] None three_open)) = [(0, ''hello'')]
   \<and> fst (websocket_handler_env 3 None
        [Arrival [] (WSMessage TEXT ''hello'') [[Leave 2]]] None three_open) = Some RuntimeError
   \<and> new_sends three_open (snd (websocket_handler_env 3 None
        [Arrival [] (WSMessage TEXT ''hello'') [[Leave 2]]] None three_open)) = [(0, ''hello'')]"
  by (simp add: websocket_handler_env_def arrives_def yielded_def max_msg_size_def
      on_message_env_def send_str_def others_def register_def add_def cleanup_def discard_def
      print_def recipients_def new_sends_def three_open_def)

subsection \<open>Error frames\<close>

lemma listen_env_closed: "ws \<in> closed s \<Longrightarrow> listen_env ws arrivals fin s = (None, s)"
  by (cases arrivals) simp_all

lemma listen_env_append:
  "listen_env ws (pre @ rest) fin s =
     (case listen_env ws pre None s of
        (Some e, s') \<Rightarrow> (Some e, s')
      | (None, s') \<Rightarrow> listen_env ws rest fin s')"
proof (induction pre arbitrary: s)
  case Nil
  show ?case by (simp add: listen_env_closed)
next
  case (Cons a pre)
  show ?case
    by (simp add: Cons.IH listen_env_closed close_def split: prod.splits option.splits)
qed

lemma listen_env_ERROR:
  assumes "msg_type (message a) = ERROR"
  shows "listen_env ws (a # rest) fin s =
     (if ws \<in> closed s then (None, s)
      else if ws \<in> closed (others (meanwhile a) s) then (None, others (meanwhile a) s)
      else (None, print (''ws connection closed with exception ''
                          @ ws_exception (others (meanwhile a) s) ws)
                   (close ws (others (meanwhile a) s))))"
  using assms
  by (simp add: on_message_env_def listen_env_closed print_def close_def)

lemma websocket_handler_env_None:
  "websocket_handler_env ws None arrivals fin s =
     (fst (listen_env ws (map arrives arrivals) fin (register ws s)),
      cleanup ws (snd (listen_env ws (map arrives arrivals) fin (register ws s))))"
  by (simp add: websocket_handler_env_def split: prod.splits)

text \<open>
  C3. An error-type frame is a frame for which the iteration yields an \<open>ERROR\<close>
  message (a failure of the reader, or a frame that reaches \<open>max_msg_size\<close>). Whatever
  the other tasks do, once the loop gets to such a frame nothing that follows it matters:
  the run is the run of the stream that ends with the error frame and then stops, so no
  further inbound message is processed. The connection is closed from then on, a loop
  that was still running prints the exception and ends without raising, and the
  \<open>finally\<close> block deregisters the connection.
\<close>

theorem error_frame_ends_loop:
  assumes err: "msg_type (yielded (message a)) = ERROR"
  shows "websocket_handler_env ws None (pre @ a # post) fin s =
           websocket_handler_env ws None (pre @ [a]) None s
    \<and> ws \<notin> set (active_websockets
          (snd (websocket_handler_env ws None (pre @ a # post) fin s)))
    \<and> ws \<in> closed (snd (listen_env ws (arrives a # rest) fin s))
    \<and> (ws \<notin> closed s \<and> ws \<notin> closed (others (meanwhile a) s) \<longrightarrow>
         listen_env ws (arrives a # rest) fin s =
           (None, print (''ws connection closed with exception ''
                          @ ws_exception (others (meanwhile a) s) ws)
                    (close ws (others (meanwhile a) s))))"
proof -
  have e: "msg_type (message (arrives a)) = ERROR"
    using err by (simp add: arrives_def)
  have m: "meanwhile (arrives a) = meanwhile a"
    by (simp add: arrives_def)
  have same: "listen_env ws (arrives a # more) fin' t = listen_env ws [arrives a] None t"
    for more fin' t
    unfolding listen_env_ERROR [OF e] ..
  have loop: "listen_env ws (map arrives (pre @ a # post)) fin (register ws s) =
      listen_env ws (map arrives (pre @ [a])) None (register ws s)"
  proof -
    obtain r t where p: "listen_env ws (map arrives pre) None (register ws s) = (r, t)"
      by (cases "listen_env ws (map arrives pre) None (register ws s)")
    have l: "listen_env ws (map arrives (pre @ a # post)) fin (register ws s) =
        (case r of Some e \<Rightarrow> (Some e, t)
         | None \<Rightarrow> listen_env ws (arrives a # map arrives post) fin t)"
      by (simp only: map_append list.map listen_env_append p split: prod.splits) simp
    have r: "listen_env ws (map arrives (pre @ [a])) None (register ws s) =
        (case r of Some e \<Rightarrow> (Some e, t)
         | None \<Rightarrow> listen_env ws [arrives a] None t)"
      by (simp only: map_append list.map listen_env_append p split: prod.splits) simp
    show ?thesis
      unfolding l r using same [of "map arrives post" fin t] by (cases r) simp_all
  qed
  have a: "websocket_handler_env ws None (pre @ a # post) fin s =
      websocket_handler_env ws None (pre @ [a]) None s"
    unfolding websocket_handler_env_None loop ..
  have b: "ws \<notin> set (active_websockets
      (snd (websocket_handler_env ws None (pre @ a # post) fin s)))"
    by (simp add: websocket_handler_env_None cleanup_simps)
  have c: "ws \<in> closed (snd (listen_env ws (arrives a # rest) fin s))"
    unfolding listen_env_ERROR [OF e] m by (simp add: print_def close_def)
  have d: "ws \<notin> closed s \<and> ws \<notin> closed (others (meanwhile a) s) \<longrightarrow>
         listen_env ws (arrives a # rest) fin s =
           (None, print (''ws connection closed with exception ''
                          @ ws_exception (others (meanwhile a) s) ws)
                    (close ws (others (meanwhile a) s)))"
    unfolding listen_env_ERROR [OF e] m by simp
  from a b c d show ?thesis by (intro conjI)
qed

text \<open>Connection 3 joins three peers; a text, an error frame and another text arrive. The
  first text is relayed, the second is not, and connection 3 is deregistered.\<close>

theorem error_frame_ends_loop_witness:
  "msg_type (yielded (message (Arrival [] (WSMessage ERROR []) []))) = ERROR
   \<and> new_sends three_open (snd (websocket_handler_env 3 None
        [Arrival [] (WSMessage TEXT ''hi'') [], Arrival [] (WSMessage ERROR []) [],
         Arrival [] (WSMessage TEXT ''x'') []] None three_open)) =
       [(0, ''hi''), (1, ''hi''), (2, ''hi'')]
   \<and> fst (websocket_handler_env 3 None
        [Arrival [] (WSMessage TEXT ''hi'') [], Arrival [] (WSMessage ERROR []) [],
         Arrival [] (WSMessage TEXT ''x'') []] None three_open) = None
   \<and> 3 \<notin> set (active_websockets (snd (websocket_handler_env 3 None
        [Arrival [] (WSMessage TEXT ''hi'') [], Arrival [] (WSMessage ERROR []) [],
         Arrival [] (WSMessage TEXT ''x'') []] None three_open)))"
proof -
  have err: "msg_type (yielded (message (Arrival [] (WSMessage ERROR []) []))) = ERROR"
    by (simp add: yielded_def)
  note th = error_frame_ends_loop [OF err, where ws = 3
      and pre = "[Arrival [] (WSMessage TEXT ''hi'') []]"
      and post = "[Arrival [] (WSMessage TEXT ''x'') []]" and fin = None and s = three_open
      and rest = "[]"]
  have cut: "websocket_handler_env 3 None
        [Arrival [] (WSMessage TEXT ''hi'') [], Arrival [] (WSMessage ERROR []) [],
         Arrival [] (WSMessage TEXT ''x'') []] None three_open =
      websocket_handler_env 3 None
        [Arrival [] (WSMessage TEXT ''hi'') [], Arrival [] (WSMessage ERROR []) []] None three_open"
    using th by simp
  have run: "websocket_handler_env 3 None
        [Arrival [] (WSMessage TEXT ''hi'') [], Arrival [] (WSMessage ERROR []) []] None three_open =
      (None, cleanup 3 (print ''ws connection closed with exception None''
         (close 3 ((register 3 three_open)\<lparr>history := history (register 3 three_open) @
            [SendStr 0 ''hi'', SendStr 1 ''hi'', SendStr 2 ''hi'']\<rparr>))))"
    by (simp add: websocket_handler_env_def arrives_def yielded_def max_msg_size_def
      on_message_env_def send_str_def others_def register_def add_def close_def
      print_def three_open_def)
  show ?thesis
    unfolding cut run using err
    by (simp add: cleanup_simps register_simps new_sends_def sends_append print_def close_def
        three_open_def)
qed

subsection \<open>The writes of a whole run\<close>



lemma subseq_distinct: "subseq xs ys \<Longrightarrow> distinct ys \<Longrightarrow> distinct xs"
proof (induction rule: list_emb.induct)
  case (list_emb_Nil ys)
  show ?case by simp
next
  case (list_emb_Cons xs ys y)
  then show ?case by simp
next
  case (list_emb_Cons2 x y xs ys)
  then have "set xs \<subseteq> set ys" by (auto dest: list_emb_set)
  with list_emb_Cons2 show ?case by auto
qed

lemma fan_outs_silent: "fan_outs ds (replicate n []) = []"
proof (induction ds arbitrary: n)
  case Nil
  show ?case by simp
next
  case (Cons d ds)
  show ?case by (cases n) (simp_all add: Cons.IH fan_out_def)
qed

lemma fan_outs_payloads: "set (map snd (fan_outs ds css)) \<subseteq> set ds"
proof (induction ds css rule: fan_outs.induct)
  case (1 d ds cs css)
  then show ?case by (auto simp: fan_out_def)
qed simp_all


text \<open>What one step of the loop writes, whatever the other tasks do during it.\<close>

lemma on_message_env_shape:
  "\<exists>cs. sends (history (snd (on_message_env ws m dur s))) =
           sends (history s) @ fan_out (msg_data m) cs
      \<and> (msg_type m \<noteq> TEXT \<longrightarrow> cs = [])
      \<and> (distinct (active_websockets s) \<longrightarrow>
           distinct cs \<and> distinct (active_websockets (snd (on_message_env ws m dur s))))"
proof (cases "msg_type m = TEXT")
  case True
  from relay_env_shape [of "active_websockets s" ws "msg_data m" "length (active_websockets s)" dur s]
  obtain cs where
    "subseq cs (active_websockets s)
      \<and> sends (history (snd (relay_env ws (msg_data m) (length (active_websockets s))
             (active_websockets s) dur s))) =
          sends (history s) @ map (\<lambda>c. (c, msg_data m)) cs
      \<and> (distinct (active_websockets s) \<longrightarrow>
           distinct (active_websockets (snd (relay_env ws (msg_data m)
             (length (active_websockets s)) (active_websockets s) dur s))))" ..
  then show ?thesis
    using True
    by (intro exI [of _ cs]) (auto simp: on_message_env_def fan_out_def dest: subseq_distinct)
next
  case False
  then show ?thesis
    by (intro exI [of _ "[]"]) (simp add: on_message_env_def print_def sends_append fan_out_def)
qed

lemma texts_Cons:
  "texts (m # ms) = (if msg_type m = TEXT then msg_data m # texts ms else texts ms)"
  by (simp add: texts_def)

lemma close_simps:
  "history (close ws s) = history s"
  "active_websockets (close ws s) = active_websockets s"
  by (simp_all add: close_def)

text \<open>The writes of a loop, whatever the other tasks do: one broadcast for each text of
  the stream, in the order of the stream (the broadcast of a text that the loop never
  gets to reaches nobody), and no connection twice in a broadcast.\<close>

lemma listen_env_shape:
  "\<exists>css. length css = length (texts (map message arrivals))
      \<and> sends (history (snd (listen_env ws arrivals fin s))) =
          sends (history s) @ fan_outs (texts (map message arrivals)) css
      \<and> (distinct (active_websockets s) \<longrightarrow> (\<forall>cs \<in> set css. distinct cs))"
proof (induction arrivals arbitrary: s)
  case Nil
  show ?case by (intro exI [of _ "[]"]) (simp add: texts_def)
next
  case (Cons a rest)
  let ?ds = "texts (map message (a # rest))"
  let ?quiet = "replicate (length ?ds) ([] :: conn list)"
  let ?s0 = "others (meanwhile a) s"
  let ?s1 = "if msg_type (message a) = ERROR then close ws ?s0 else ?s0"
  have silent: "\<exists>css. length css = length ?ds
      \<and> sends (history t) = sends (history s) @ fan_outs ?ds css
      \<and> (distinct (active_websockets s) \<longrightarrow> (\<forall>cs \<in> set css. distinct cs))"
    if "sends (history t) = sends (history s)" for t
    using that by (intro exI [of _ ?quiet]) (simp add: fan_outs_silent)
  have s1: "sends (history ?s1) = sends (history s)"
    by (simp add: close_simps others_sends)
  have d1: "distinct (active_websockets s) \<Longrightarrow> distinct (active_websockets ?s1)"
    by (simp add: close_simps others_distinct)
  consider (c1) "ws \<in> closed s"
    | (c2) "ws \<notin> closed s" "ws \<in> closed ?s0"
    | (c3) "ws \<notin> closed s" "ws \<notin> closed ?s0" "msg_type (message a) \<in> {CLOSE, CLOSING, CLOSED}"
    | (c4) "ws \<notin> closed s" "ws \<notin> closed ?s0" "msg_type (message a) \<notin> {CLOSE, CLOSING, CLOSED}"
    by blast
  then show ?case
  proof cases
    case c1
    then have "listen_env ws (a # rest) fin s = (None, s)" by simp
    then show ?thesis using silent [of s] by simp
  next
    case c2
    then have "listen_env ws (a # rest) fin s = (None, ?s0)" by simp
    then show ?thesis using silent [of ?s0] by (simp add: others_sends)
  next
    case c3
    then have "listen_env ws (a # rest) fin s = (None, close ws ?s0)" by simp
    then show ?thesis using silent [of "close ws ?s0"] by (simp add: others_sends close_simps)
  next
    case c4
    obtain r t where om: "on_message_env ws (message a) (during a) ?s1 = (r, t)"
      by (cases "on_message_env ws (message a) (during a) ?s1")
    from on_message_env_shape [of ws "message a" "during a" ?s1]
    obtain cs where
      "sends (history (snd (on_message_env ws (message a) (during a) ?s1))) =
           sends (history ?s1) @ fan_out (msg_data (message a)) cs
      \<and> (msg_type (message a) \<noteq> TEXT \<longrightarrow> cs = [])
      \<and> (distinct (active_websockets ?s1) \<longrightarrow>
           distinct cs \<and> distinct (active_websockets
             (snd (on_message_env ws (message a) (during a) ?s1))))" ..
    then have t_sends: "sends (history t) = sends (history s) @ fan_out (msg_data (message a)) cs"
      and cs_silent: "msg_type (message a) \<noteq> TEXT \<Longrightarrow> cs = []"
      and cs_distinct: "distinct (active_websockets s) \<Longrightarrow> distinct cs"
      and t_distinct: "distinct (active_websockets s) \<Longrightarrow> distinct (active_websockets t)"
      using om s1 d1 by simp_all
    from Cons.IH [of t] obtain css where
      ih: "length css = length (texts (map message rest))
        \<and> sends (history (snd (listen_env ws rest fin t))) =
            sends (history t) @ fan_outs (texts (map message rest)) css
        \<and> (distinct (active_websockets t) \<longrightarrow> (\<forall>cs \<in> set css. distinct cs))" ..
    note ih_len = ih [THEN conjunct1]
    note ih_sends = ih [THEN conjunct2, THEN conjunct1]
    note ih_dist = ih [THEN conjunct2, THEN conjunct2, rule_format]
    let ?rest = "if r = None then css else replicate (length (texts (map message rest))) []"
    let ?css = "if msg_type (message a) = TEXT then cs # ?rest else ?rest"
    have run: "listen_env ws (a # rest) fin s =
        (case r of Some e \<Rightarrow> (Some e, t) | None \<Rightarrow> listen_env ws rest fin t)"
      using c4 om by simp
    have len: "length ?css = length ?ds"
      using ih_len by (simp add: texts_Cons)
    have rest_dist: "\<forall>cs \<in> set ?rest. distinct cs" if "distinct (active_websockets s)"
    proof (cases r)
      case None
      then show ?thesis using ih_dist t_distinct [OF that] by simp
    next
      case (Some e)
      then show ?thesis by simp
    qed
    have dist: "distinct (active_websockets s) \<longrightarrow> (\<forall>cs \<in> set ?css. distinct cs)"
    proof
      assume d: "distinct (active_websockets s)"
      show "\<forall>cs \<in> set ?css. distinct cs"
        using rest_dist [OF d] cs_distinct [OF d]
        by (cases "msg_type (message a) = TEXT") simp_all
    qed
    have snd: "sends (history (snd (listen_env ws (a # rest) fin s))) =
        sends (history s) @ fan_outs ?ds ?css"
    proof (cases r)
      case None
      have "sends (history (snd (listen_env ws (a # rest) fin s))) =
          sends (history s) @ fan_out (msg_data (message a)) cs
            @ fan_outs (texts (map message rest)) css"
        unfolding run None by (simp add: ih_sends t_sends)
      also have "fan_out (msg_data (message a)) cs @ fan_outs (texts (map message rest)) css =
          fan_outs ?ds ?css"
        using None cs_silent
        by (cases "msg_type (message a) = TEXT") (simp_all add: texts_Cons fan_out_def)
      finally show ?thesis .
    next
      case (Some e)
      have "sends (history (snd (listen_env ws (a # rest) fin s))) =
          sends (history s) @ fan_out (msg_data (message a)) cs"
        unfolding run Some by (simp add: t_sends)
      also have "fan_out (msg_data (message a)) cs = fan_outs ?ds ?css"
        using Some cs_silent
        by (cases "msg_type (message a) = TEXT")
           (simp_all add: texts_Cons fan_out_def fan_outs_silent)
      finally show ?thesis .
    qed
    from len snd dist show ?thesis by (intro exI [of _ ?css] conjI)
  qed
qed

lemma new_sends_from:
  "sends (history t) = sends (history s) @ X \<Longrightarrow> new_sends s t = X"
  by (simp add: new_sends_def)




subsection \<open>The payload of a broadcast\<close>

lemma yielded_under: "length d < max_msg_size \<Longrightarrow> yielded (WSMessage TEXT d) = WSMessage TEXT d"
  by (simp add: yielded_def)

lemma yielded_over: "max_msg_size \<le> length d \<Longrightarrow> yielded (WSMessage TEXT d) = WSMessage ERROR []"
  by (simp add: yielded_def)

lemma length_big_text: "length big_text = 4194305"
  by (simp add: big_text_def)

lemma texts_arrives:
  "texts (map message (map arrives arrivals)) =
     filter (\<lambda>d. length d < max_msg_size) (texts (map message arrivals))"
proof (induction arrivals)
  case Nil
  show ?case by (simp add: texts_def)
next
  case (Cons a arrivals)
  obtain ty d where m: "message a = WSMessage ty d" by (cases "message a")
  have "texts (map message (map arrives (a # arrivals))) =
      (if ty = TEXT \<and> length d < max_msg_size then [d] else [])
        @ texts (map message (map arrives arrivals))"
    by (simp add: texts_Cons arrives_def yielded_def m)
  also have "\<dots> = filter (\<lambda>d. length d < max_msg_size) (texts (map message (a # arrivals)))"
    unfolding Cons.IH by (simp add: texts_Cons m)
  finally show ?case .
qed

lemma handler_new_sends:
  "new_sends s (snd (websocket_handler_env ws None arrivals fin s)) =
     new_sends (register ws s) (snd (listen_env ws (map arrives arrivals) fin (register ws s)))"
  by (simp add: websocket_handler_env_None new_sends_def cleanup_simps register_simps
      sends_append)

lemma handler_oversize:
  assumes "max_msg_size \<le> length d"
  shows "new_sends s (snd (websocket_handler_env ws None
           (Arrival m (WSMessage TEXT d) dur # rest) fin s)) = []
       \<and> fst (websocket_handler_env ws None
           (Arrival m (WSMessage TEXT d) dur # rest) fin s) = None
       \<and> ws \<in> closed (snd (websocket_handler_env ws None
           (Arrival m (WSMessage TEXT d) dur # rest) fin s))"
proof -
  let ?a = "arrives (Arrival m (WSMessage TEXT d) dur)"
  have e: "msg_type (message ?a) = ERROR"
    using assms by (simp add: arrives_def yielded_over)
  have run: "listen_env ws (map arrives (Arrival m (WSMessage TEXT d) dur # rest)) fin
        (register ws s) =
      (if ws \<in> closed (register ws s) then (None, register ws s)
       else if ws \<in> closed (others (meanwhile ?a) (register ws s))
         then (None, others (meanwhile ?a) (register ws s))
       else (None, print (''ws connection closed with exception ''
                          @ ws_exception (others (meanwhile ?a) (register ws s)) ws)
                   (close ws (others (meanwhile ?a) (register ws s)))))"
    unfolding list.map by (rule listen_env_ERROR [OF e])
  have a: "new_sends s (snd (websocket_handler_env ws None
           (Arrival m (WSMessage TEXT d) dur # rest) fin s)) = []"
    unfolding handler_new_sends run
    by (simp add: new_sends_def others_sends sends_append print_def close_def)
  have b: "fst (websocket_handler_env ws None
           (Arrival m (WSMessage TEXT d) dur # rest) fin s) = None"
    unfolding websocket_handler_env_None run by simp
  have c: "ws \<in> closed (snd (websocket_handler_env ws None
           (Arrival m (WSMessage TEXT d) dur # rest) fin s))"
    unfolding websocket_handler_env_None run
    by (simp add: cleanup_simps print_def close_def)
  from a b c show ?thesis by (intro conjI)
qed

lemma handler_under:
  assumes "length d < max_msg_size" and "ws \<notin> closed s"
    and "first_failure (send_error (register ws s))
           (recipients ws (active_websockets (register ws s)) (register ws s)) = None"
  shows "new_sends s (snd (websocket_handler ws None [WSMessage TEXT d] fin s)) =
      fan_out d (recipients ws (active_websockets (register ws s)) (register ws s))"
proof -
  let ?rs = "recipients ws (active_websockets (register ws s)) (register ws s)"
  let ?t = "(register ws s)\<lparr>history := history (register ws s) @ map (\<lambda>c. SendStr c d) ?rs\<rparr>"
  have "on_message ws (WSMessage TEXT d) (register ws s) = (None, ?t)"
    using on_message_TEXT_eq [of ws d "register ws s"] assms(3)
    by (simp add: upto_failure_all)
  then have "listen ws [WSMessage TEXT d] fin (register ws s) = listen ws [] fin ?t"
    using assms(2) by (simp add: listen_Cons register_simps)
  then have "snd (websocket_handler ws None [WSMessage TEXT d] fin s) = cleanup ws ?t"
    using assms(1) by (simp add: websocket_handler_None yielded_under listen_Nil)
  then show ?thesis
    by (simp add: new_sends_def cleanup_simps register_simps sends_append
        sends_map_SendStr fan_out_def)
qed

text \<open>
  C8, as the code has it. Line 10 leaves \<open>max_msg_size\<close> at the library's 4 MiB, so there
  is a size limit, and it is the only thing that stands between a text and its
  recipients. Whatever the frames and whatever the other tasks do, the calls of
  \<open>send_str\<close> of a handler are one block for each text frame that is shorter than
  \<open>max_msg_size\<close>, in the order of the frames, and every call of a block carries the
  payload of its frame as it arrived: nothing else is ever written. A text under the
  limit is yielded unchanged and, with the connection open and no write failing, it is
  written, unchanged, to each of the recipients. A text that reaches the limit is
  yielded as an error message: it is written to nobody, whatever else happens, and the
  handler returns with the connection closed.
\<close>

theorem text_under_limit_verbatim:
  "(\<exists>css. length css =
         length (filter (\<lambda>d. length d < max_msg_size) (texts (map message arrivals)))
       \<and> new_sends s (snd (websocket_handler_env ws None arrivals fin s)) =
           fan_outs (filter (\<lambda>d. length d < max_msg_size) (texts (map message arrivals))) css)
   \<and> (length d < max_msg_size \<longrightarrow> yielded (WSMessage TEXT d) = WSMessage TEXT d)
   \<and> (length d < max_msg_size \<and> ws \<notin> closed s
        \<and> first_failure (send_error (register ws s))
             (recipients ws (active_websockets (register ws s)) (register ws s)) = None \<longrightarrow>
        new_sends s (snd (websocket_handler ws None [WSMessage TEXT d] fin s)) =
          fan_out d (recipients ws (active_websockets (register ws s)) (register ws s)))
   \<and> (max_msg_size \<le> length d \<longrightarrow>
        yielded (WSMessage TEXT d) = WSMessage ERROR []
        \<and> new_sends s (snd (websocket_handler_env ws None
             (Arrival m (WSMessage TEXT d) dur # rest) fin s)) = []
        \<and> fst (websocket_handler_env ws None
             (Arrival m (WSMessage TEXT d) dur # rest) fin s) = None
        \<and> ws \<in> closed (snd (websocket_handler_env ws None
             (Arrival m (WSMessage TEXT d) dur # rest) fin s)))"
proof -
  let ?ds = "filter (\<lambda>d. length d < max_msg_size) (texts (map message arrivals))"
  from listen_env_shape [of "map arrives arrivals" ws fin "register ws s"] obtain css where
    shape: "length css = length (texts (map message (map arrives arrivals)))
      \<and> sends (history (snd (listen_env ws (map arrives arrivals) fin (register ws s)))) =
          sends (history (register ws s))
            @ fan_outs (texts (map message (map arrives arrivals))) css
      \<and> (distinct (active_websockets (register ws s)) \<longrightarrow> (\<forall>cs \<in> set css. distinct cs))" ..
  have len: "length css = length ?ds"
    using shape [THEN conjunct1] unfolding texts_arrives .
  have "new_sends (register ws s)
        (snd (listen_env ws (map arrives arrivals) fin (register ws s))) =
      fan_outs (texts (map message (map arrives arrivals))) css"
    by (rule new_sends_from) (rule shape [THEN conjunct2, THEN conjunct1])
  then have new: "new_sends s (snd (websocket_handler_env ws None arrivals fin s)) =
      fan_outs ?ds css"
    unfolding handler_new_sends texts_arrives .
  have a: "\<exists>css. length css = length ?ds
       \<and> new_sends s (snd (websocket_handler_env ws None arrivals fin s)) = fan_outs ?ds css"
    using len new by (intro exI [of _ css] conjI)
  have b: "length d < max_msg_size \<longrightarrow> yielded (WSMessage TEXT d) = WSMessage TEXT d"
    by (simp add: yielded_under)
  have c: "length d < max_msg_size \<and> ws \<notin> closed s
        \<and> first_failure (send_error (register ws s))
             (recipients ws (active_websockets (register ws s)) (register ws s)) = None \<longrightarrow>
        new_sends s (snd (websocket_handler ws None [WSMessage TEXT d] fin s)) =
          fan_out d (recipients ws (active_websockets (register ws s)) (register ws s))"
    by (intro impI handler_under) simp_all
  have d: "max_msg_size \<le> length d \<longrightarrow>
        yielded (WSMessage TEXT d) = WSMessage ERROR []
        \<and> new_sends s (snd (websocket_handler_env ws None
             (Arrival m (WSMessage TEXT d) dur # rest) fin s)) = []
        \<and> fst (websocket_handler_env ws None
             (Arrival m (WSMessage TEXT d) dur # rest) fin s) = None
        \<and> ws \<in> closed (snd (websocket_handler_env ws None
             (Arrival m (WSMessage TEXT d) dur # rest) fin s))"
  proof
    assume over: "max_msg_size \<le> length d"
    from yielded_over [OF over] handler_oversize [OF over, of s ws m dur rest fin]
    show "yielded (WSMessage TEXT d) = WSMessage ERROR []
        \<and> new_sends s (snd (websocket_handler_env ws None
             (Arrival m (WSMessage TEXT d) dur # rest) fin s)) = []
        \<and> fst (websocket_handler_env ws None
             (Arrival m (WSMessage TEXT d) dur # rest) fin s) = None
        \<and> ws \<in> closed (snd (websocket_handler_env ws None
             (Arrival m (WSMessage TEXT d) dur # rest) fin s))"
      by (intro conjI) simp_all
  qed
  from a b c d show ?thesis by (intro conjI)
qed

text \<open>Connection 3 joins three open peers and sends a line of telemetry: each of the
  three is written that line. A text of 4 MiB sent by the same connection is written to
  nobody.\<close>

theorem text_under_limit_verbatim_witness:
  "length ''rpm=4200;tps=17'' < max_msg_size
   \<and> 3 \<notin> closed three_open
   \<and> first_failure (send_error (register 3 three_open))
        (recipients 3 (active_websockets (register 3 three_open)) (register 3 three_open)) = None
   \<and> new_sends three_open
        (snd (websocket_handler 3 None [WSMessage TEXT ''rpm=4200;tps=17''] None three_open)) =
       [(0, ''rpm=4200;tps=17''), (1, ''rpm=4200;tps=17''), (2, ''rpm=4200;tps=17'')]
   \<and> max_msg_size \<le> length (replicate max_msg_size (CHR ''a''))
   \<and> new_sends three_open (snd (websocket_handler_env 3 None
        [Arrival [] (WSMessage TEXT (replicate max_msg_size (CHR ''a''))) [],
         Arrival [] (WSMessage TEXT ''rpm=4200;tps=17'') []] None three_open)) = []"
proof -
  let ?d = "''rpm=4200;tps=17''"
  let ?big = "replicate max_msg_size (CHR ''a'')"
  have under: "length ?d < max_msg_size"
    by (simp add: max_msg_size_def)
  have opn: "3 \<notin> closed three_open"
    by (simp add: three_open_def)
  have rs: "recipients 3 (active_websockets (register 3 three_open)) (register 3 three_open) =
      [0, 1, 2]"
    by (simp add: register_simps recipients_def three_open_def)
  have ok: "first_failure (send_error (register 3 three_open))
        (recipients 3 (active_websockets (register 3 three_open)) (register 3 three_open)) = None"
    unfolding rs by (simp add: register_simps three_open_def)
  have over: "max_msg_size \<le> length ?big"
    by simp
  note th = text_under_limit_verbatim [where ws = 3 and s = three_open and fin = None
      and arrivals = "[]" and m = "[]" and dur = "[]"]
  have a: "new_sends three_open (snd (websocket_handler 3 None [WSMessage TEXT ?d] None
      three_open)) = [(0, ?d), (1, ?d), (2, ?d)]"
    using th [where d = ?d and rest = "[]", THEN conjunct2, THEN conjunct2, THEN conjunct1]
      under opn ok
    unfolding rs by (simp add: fan_out_def)
  have b: "new_sends three_open (snd (websocket_handler_env 3 None
        [Arrival [] (WSMessage TEXT ?big) [], Arrival [] (WSMessage TEXT ?d) []] None
        three_open)) = []"
    using th [where d = ?big and rest = "[Arrival [] (WSMessage TEXT ?d) []]",
        THEN conjunct2, THEN conjunct2, THEN conjunct2] over
    by blast
  from under opn ok a over b show ?thesis by (intro conjI)
qed

text \<open>C8 as the specification has it, with no size limit, fails for a text of one byte
  more than 4 MiB: connection 3 joins three open peers, no write fails, and the text
  is written to none of them; the handler returns with the connection closed.\<close>

theorem oversize_text_not_relayed:
  "length big_text = 4194305
   \<and> recipients 3 (active_websockets (register 3 three_open)) (register 3 three_open) =
       [0, 1, 2]
   \<and> first_failure (send_error (register 3 three_open)) [0, 1, 2] = None
   \<and> new_sends three_open
        (snd (websocket_handler 3 None [WSMessage TEXT big_text] None three_open)) = []
   \<and> new_sends three_open
        (snd (websocket_handler 3 None [WSMessage TEXT big_text] None three_open)) \<noteq>
       fan_out big_text
         (recipients 3 (active_websockets (register 3 three_open)) (register 3 three_open))
   \<and> fst (websocket_handler 3 None [WSMessage TEXT big_text] None three_open) = None
   \<and> 3 \<in> closed (snd (websocket_handler 3 None [WSMessage TEXT big_text] None three_open))"
proof -
  have over: "max_msg_size \<le> length big_text"
    by (simp add: length_big_text max_msg_size_def)
  have rs: "recipients 3 (active_websockets (register 3 three_open)) (register 3 three_open) =
      [0, 1, 2]"
    by (simp add: register_simps recipients_def three_open_def)
  have ok: "first_failure (send_error (register 3 three_open)) [0, 1, 2] = None"
    by (simp add: register_simps three_open_def)
  have h: "websocket_handler 3 None [WSMessage TEXT big_text] None three_open =
      websocket_handler_env 3 None [Arrival [] (WSMessage TEXT big_text) []] None three_open"
    by (simp add: websocket_handler_def quiet_def)
  note run = handler_oversize [OF over, of three_open 3 "[]" "[]" "[]" None, folded h]
  have new: "new_sends three_open
        (snd (websocket_handler 3 None [WSMessage TEXT big_text] None three_open)) = []"
    by (rule run [THEN conjunct1])
  have neq: "new_sends three_open
        (snd (websocket_handler 3 None [WSMessage TEXT big_text] None three_open)) \<noteq>
       fan_out big_text
         (recipients 3 (active_websockets (register 3 three_open)) (register 3 three_open))"
    unfolding new rs by (simp add: fan_out_def)
  from length_big_text rs ok new neq run [THEN conjunct2, THEN conjunct1]
    run [THEN conjunct2, THEN conjunct2]
  show ?thesis by (intro conjI)
qed

end
